theory Spec2Isabelle
  imports Main "HOL-Library.Word" "HOL-Library.Signed_Division"
begin

section \<open>autotest: watching directories and running the tests after changes settle\<close>

text \<open>
  A shallow embedding of \<^verbatim>\<open>autotest.go\<close>. Every definition follows one function of the
  source; what the operating system, the fsnotify watcher, the clock and the test command
  answer is passed in as an argument. Lines written with \<^verbatim>\<open>log.Println\<close> are output
  only; the model keeps those of \<^verbatim>\<open>RunTests\<close> and the \<^verbatim>\<open>error:\<close> lines of the
  monitoring loop, and leaves the others (\<^verbatim>\<open>watching for changes:\<close>, the debug lines) out.
\<close>

subsection \<open>Durations and instants\<close>

text \<open>
  \<^verbatim>\<open>time.Duration\<close> is an \<^verbatim>\<open>int64\<close> count of nanoseconds. Addition and subtraction wrap
  around; \<^verbatim>\<open>/\<close> and \<^verbatim>\<open>%\<close> truncate towards zero and panic on a zero divisor (the caller
  checks that before using \<open>quo64\<close> or \<open>rem64\<close>). An instant (\<^verbatim>\<open>time.Time\<close>) is
  modelled as an integer count of nanoseconds since a fixed origin.
\<close>

type_synonym Duration = "64 word"

type_synonym Time = int

definition Microsecond :: Duration where
  "Microsecond = 1000"

definition Millisecond :: Duration where
  "Millisecond = 1000000"

definition Second :: Duration where
  "Second = 1000000000"

definition quo64 :: "64 word \<Rightarrow> 64 word \<Rightarrow> 64 word" where
  "quo64 x y = word_of_int (sint x sdiv sint y)"

definition rem64 :: "64 word \<Rightarrow> 64 word \<Rightarrow> 64 word" where
  "rem64 x y = word_of_int (sint x smod sint y)"

text \<open>
  \<^verbatim>\<open>func round(duration, interval time.Duration) time.Duration\<close>: \<open>None\<close> is the run-time
  panic of \<^verbatim>\<open>t % 0\<close>.
\<close>

definition round_d :: "Duration \<Rightarrow> Duration \<Rightarrow> Duration option" where
  "round_d duration interval =
     (let t = duration + quo64 interval 2
      in if interval = 0 then None else Some (t - rem64 t interval))"

text \<open>
  \<^verbatim>\<open>Time.Sub\<close> of the standard library: the difference of two instants, saturated to the
  range of a \<^verbatim>\<open>Duration\<close>; \<^verbatim>\<open>time.Since(t)\<close> is \<^verbatim>\<open>time.Now().Sub(t)\<close>.
\<close>

definition maxDuration :: int where
  "maxDuration = 2 ^ 63 - 1"

definition minDuration :: int where
  "minDuration = - (2 ^ 63)"

definition Sub :: "Time \<Rightarrow> Time \<Rightarrow> Duration" where
  "Sub t u =
     (let d = t - u
      in if maxDuration < d then word_of_int maxDuration
         else if d < minDuration then word_of_int minDuration
         else word_of_int d)"

definition Since :: "Time \<Rightarrow> Time \<Rightarrow> Duration" where
  "Since now t = Sub now t"

subsection \<open>Printing a duration\<close>

text \<open>
  \<^verbatim>\<open>fmt.Sprintf\<close> prints a \<^verbatim>\<open>time.Duration\<close> under the verb \<^verbatim>\<open>%s\<close> through its
  \<^verbatim>\<open>String\<close> method, which is part of Go's package \<^verbatim>\<open>time\<close>: hours, minutes and
  seconds as in \<^verbatim>\<open>72h3m0.5s\<close>, leading zero units omitted, a smaller unit below one second.
  The three functions below follow \<^verbatim>\<open>fmtInt\<close>, \<^verbatim>\<open>fmtFrac\<close> and \<^verbatim>\<open>Duration.format\<close>
  of that package; \<open>buf\<close> is the text already written, which the Go code fills from the
  right end of a byte array.
\<close>

definition digit :: "nat \<Rightarrow> char" where
  "digit n = ''0123456789'' ! n"

function fmtInt_loop :: "string \<Rightarrow> nat \<Rightarrow> string" where
  "fmtInt_loop buf v = (if 0 < v then fmtInt_loop (digit (v mod 10) # buf) (v div 10) else buf)"
  by pat_completeness auto
termination
  by (relation "measure snd") auto

declare fmtInt_loop.simps [simp del]

definition fmtInt :: "string \<Rightarrow> nat \<Rightarrow> string" where
  "fmtInt buf v = (if v = 0 then CHR ''0'' # buf else fmtInt_loop buf v)"

function fmtFrac_loop :: "nat \<Rightarrow> nat \<Rightarrow> bool \<Rightarrow> string \<Rightarrow> nat \<Rightarrow> string \<times> nat \<times> bool" where
  "fmtFrac_loop i prec print buf v =
     (if i < prec then
        (let d = v mod 10;
             print = (print \<or> d \<noteq> 0);
             buf = (if print then digit d # buf else buf)
         in fmtFrac_loop (i + 1) prec print buf (v div 10))
      else (buf, v, print))"
  by pat_completeness auto
termination
  by (relation "measure (\<lambda>(i, prec, print, buf, v). prec - i)") auto

declare fmtFrac_loop.simps [simp del]

definition fmtFrac :: "string \<Rightarrow> nat \<Rightarrow> nat \<Rightarrow> string \<times> nat" where
  "fmtFrac buf v prec =
     (case fmtFrac_loop 0 prec False buf v of
        (buf, v, print) \<Rightarrow> (if print then CHR ''.'' # buf else buf, v))"

definition format_below_second :: "nat \<Rightarrow> string" where
  "format_below_second u =
     (if u = 0 then ''0s''
      else
        (let (prec, buf) =
               (if u < unat Microsecond then (0, ''ns'')
                else if u < unat Millisecond then (3, [CHR 0xC2, CHR 0xB5, CHR ''s''])
                else (6, ''ms''))
         in case fmtFrac buf u prec of (buf, u) \<Rightarrow> fmtInt buf u))"

definition format_from_second :: "nat \<Rightarrow> string" where
  "format_from_second u =
     (case fmtFrac ''s'' u 9 of
        (buf, u) \<Rightarrow>
          (let buf = fmtInt buf (u mod 60);
               u = u div 60
           in if 0 < u then
                (let buf = fmtInt (CHR ''m'' # buf) (u mod 60);
                     u = u div 60
                 in if 0 < u then fmtInt (CHR ''h'' # buf) u else buf)
              else buf))"

definition Duration_String :: "Duration \<Rightarrow> string" where
  "Duration_String d =
     (let neg = (d <s 0);
          u = unat (if neg then - d else d);
          buf = (if u < unat Second then format_below_second u else format_from_second u)
      in if neg then CHR ''-'' # buf else buf)"

subsection \<open>The watcher and the status of the last run\<close>

text \<open>
  \<^verbatim>\<open>type autotest struct\<close>, with the fields the monitoring loop, the watch list and
  \<^verbatim>\<open>RunTests\<close> read or write. A compiled regular expression of \<^verbatim>\<open>IgnoreFiles\<close> is
  the predicate \<^verbatim>\<open>MatchString\<close> computes. The values of \<^verbatim>\<open>lastState\<close> are the three
  constants the source declares.
\<close>

datatype run_state = starting | working | failing

record autotest =
  SettleTime :: Duration
  IgnoreFiles :: "(string \<Rightarrow> bool) list"
  debug :: bool
  paths :: "string list"
  timeSuccess :: Time
  timeFailure :: Time
  lastState :: run_state

text \<open>
  How a call ends: it returns, or the process ends with a message (\<^verbatim>\<open>log.Fatal\<close> prints
  it and exits with status 1; a run-time panic prints it and aborts).
\<close>

datatype 'a outcome = Return 'a | Exit string

definition divide_panic :: string where
  "divide_panic = ''panic: runtime error: integer divide by zero''"

definition red :: "string \<Rightarrow> string" where
  "red msg = CHR 0x1B # ''[31m'' @ msg @ CHR 0x1B # ''[0m''"

definition green :: "string \<Rightarrow> string" where
  "green msg = CHR 0x1B # ''[32m'' @ msg @ CHR 0x1B # ''[0m''"

text \<open>
  \<^verbatim>\<open>func (a *autotest) RunTests()\<close>. \<open>err\<close> is what \<^verbatim>\<open>handleModifications\<close> returned
  (\<open>None\<close>: the test command succeeded, \<open>Some e\<close>: it failed, \<open>e\<close> the error's text);
  \<open>now\<close> is the reading of the clock (one reading stands for the two consecutive
  calls of \<^verbatim>\<open>time.Now\<close> and \<^verbatim>\<open>time.Since\<close>). The result is the watcher and the lines
  written to the log.
\<close>

definition RunTests :: "string option \<Rightarrow> Time \<Rightarrow> autotest \<Rightarrow> (autotest \<times> string list) outcome" where
  "RunTests err now a =
     (case err of
        Some e \<Rightarrow>
          (let msg = ''error: '' @ e;
               a = (if lastState a \<noteq> failing then a\<lparr>timeFailure := now\<rparr> else a)
           in if lastState a = working then
                (case round_d (Since now (timeSuccess a)) Second of
                   None \<Rightarrow> Exit divide_panic
                 | Some r \<Rightarrow>
                     Return (a\<lparr>lastState := failing\<rparr>,
                             [red (msg @ '' ('' @ Duration_String r @ '' success)'')]))
              else Return (a\<lparr>lastState := failing\<rparr>, [red msg]))
      | None \<Rightarrow>
          (let a = (if lastState a \<noteq> working then a\<lparr>timeSuccess := now\<rparr> else a)
           in if lastState a = failing then
                (case round_d (Since now (timeFailure a)) Second of
                   None \<Rightarrow> Exit divide_panic
                 | Some r \<Rightarrow>
                     Return (a\<lparr>lastState := working\<rparr>,
                             [green (''success after '' @ Duration_String r @ '' failures'')]))
              else Return (a\<lparr>lastState := working\<rparr>, [])))"

subsection \<open>The watch list\<close>

text \<open>
  \<^verbatim>\<open>func (a *autotest) Add(path string) error\<close>. \<open>err\<close> is what the watcher's
  \<^verbatim>\<open>a.fs.Add(path)\<close> returned: \<open>None\<close> for \<^verbatim>\<open>nil\<close>, \<open>Some e\<close> for an error with
  text \<open>e\<close>. On an error \<^verbatim>\<open>log.Fatal(err)\<close> ends the process.
\<close>

definition Add :: "string \<Rightarrow> string option \<Rightarrow> autotest \<Rightarrow> (autotest \<times> string option) outcome" where
  "Add path err a =
     (case err of
        Some e \<Rightarrow> Exit e
      | None \<Rightarrow> Return (a\<lparr>paths := paths a @ [path]\<rparr>, err))"

text \<open>
  The loop of \<^verbatim>\<open>Remove\<close> over \<^verbatim>\<open>a.paths\<close>: at the first entry equal to \<open>path\<close> the
  entries behind it move one place forward, the slice loses its last place, and the loop
  ends (\<^verbatim>\<open>break\<close>).
\<close>

fun delete_entry :: "string \<Rightarrow> string list \<Rightarrow> string list" where
  "delete_entry path [] = []"
| "delete_entry path (val # rest) = (if val = path then rest else val # delete_entry path rest)"

text \<open>
  \<^verbatim>\<open>func (a *autotest) Remove(path string) error\<close>. \<open>err\<close> is what the watcher's
  \<^verbatim>\<open>a.fs.Remove(path)\<close> returned; the list is changed before that call.
\<close>

definition Remove :: "string \<Rightarrow> string option \<Rightarrow> autotest \<Rightarrow> autotest \<times> string option" where
  "Remove path err a = (a\<lparr>paths := delete_entry path (paths a)\<rparr>, err)"

subsection \<open>Classifying one notification\<close>

text \<open>
  \<^verbatim>\<open>fsnotify.Event\<close>: a path and a set of operation bits. Package fsnotify declares
  \<^verbatim>\<open>type Op uint32\<close> and the constants \<^verbatim>\<open>Create\<close>, \<^verbatim>\<open>Write\<close>, \<^verbatim>\<open>Remove\<close>,
  \<^verbatim>\<open>Rename\<close>, \<^verbatim>\<open>Chmod\<close> as \<^verbatim>\<open>1 << iota\<close>, in this order.
\<close>

unbundle bit_operations_syntax

record Event =
  Name :: string
  Op :: "32 word"

definition fsnotify_Create :: "32 word" where
  "fsnotify_Create = 1"

definition fsnotify_Write :: "32 word" where
  "fsnotify_Write = 2"

definition fsnotify_Remove :: "32 word" where
  "fsnotify_Remove = 4"

definition fsnotify_Rename :: "32 word" where
  "fsnotify_Rename = 8"

definition fsnotify_Chmod :: "32 word" where
  "fsnotify_Chmod = 16"

text \<open>
  What the operating system and the watcher answer while one event is handled:
  \<open>stat\<close> is the result of \<^verbatim>\<open>os.Stat(filename)\<close> (\<open>Inl e\<close>: an error with text \<open>e\<close>,
  \<open>Inr d\<close>: a file info with \<^verbatim>\<open>IsDir() = d\<close>), \<open>fs_Add\<close> and \<open>fs_Remove\<close> are the
  results of \<^verbatim>\<open>a.fs.Add\<close> and \<^verbatim>\<open>a.fs.Remove\<close>. Each is called at most once per event.
\<close>

record os_replies =
  stat :: "string + bool"
  fs_Add :: "string option"
  fs_Remove :: "string option"

text \<open>\<^verbatim>\<open>strings.HasSuffix\<close>, \<^verbatim>\<open>strings.HasPrefix\<close> and \<^verbatim>\<open>filepath.Base\<close> (Unix).\<close>

definition HasSuffix :: "string \<Rightarrow> string \<Rightarrow> bool" where
  "HasSuffix s suf \<longleftrightarrow> length suf \<le> length s \<and> drop (length s - length suf) s = suf"

definition HasPrefix :: "string \<Rightarrow> string \<Rightarrow> bool" where
  "HasPrefix s pre \<longleftrightarrow> length pre \<le> length s \<and> take (length pre) s = pre"

definition IsPathSeparator :: "char \<Rightarrow> bool" where
  "IsPathSeparator c \<longleftrightarrow> c = CHR ''/''"

definition Base :: "string \<Rightarrow> string" where
  "Base path =
     (if path = [] then ''.''
      else
        (let path = rev (dropWhile IsPathSeparator (rev path));
             path = rev (takeWhile (\<lambda>c. \<not> IsPathSeparator c) (rev path))
         in if path = [] then ''/'' else path))"

text \<open>The loop over \<^verbatim>\<open>a.IgnoreFiles\<close> that sets \<^verbatim>\<open>skip\<close>.\<close>

definition skip_file :: "autotest \<Rightarrow> string \<Rightarrow> bool" where
  "skip_file a filename = list_ex (\<lambda>re. re (Base filename)) (IgnoreFiles a)"

text \<open>
  \<^verbatim>\<open>func (a *autotest) handleEvent(event fsnotify.Event) (bool, error)\<close>, in three parts,
  one for each \<^verbatim>\<open>if\<close> of the source, the later parts called where the earlier ones fall
  through. The result is the watcher, the flag and the error (\<open>None\<close> for \<^verbatim>\<open>nil\<close>).
\<close>

definition on_write :: "Event \<Rightarrow> autotest \<Rightarrow> bool \<Rightarrow> bool" where
  "on_write event a modified =
     (if Op event AND fsnotify_Write \<noteq> 0 then
        (if skip_file a (Name event) then modified else True)
      else modified)"

definition on_remove ::
  "Event \<Rightarrow> os_replies \<Rightarrow> autotest \<Rightarrow> bool \<Rightarrow> (autotest \<times> bool \<times> string option) outcome" where
  "on_remove event os a modified =
     (if Op event AND fsnotify_Remove \<noteq> 0 then
        (case Remove (Name event) (fs_Remove os) a of
           (a', err) \<Rightarrow>
             (case err of
                Some e \<Rightarrow>
                  if \<not> HasPrefix e ''can't remove non-existent inotify watch''
                  then Return (a', False, Some e)
                  else Return (a', on_write event a' True, None)
              | None \<Rightarrow> Return (a', on_write event a' True, None)))
      else Return (a, on_write event a modified, None))"

definition handleEvent ::
  "Event \<Rightarrow> os_replies \<Rightarrow> autotest \<Rightarrow> (autotest \<times> bool \<times> string option) outcome" where
  "handleEvent event os a =
     (if Op event AND fsnotify_Create \<noteq> 0 then
        (case stat os of
           Inl e \<Rightarrow>
             if HasSuffix e ''no such file or directory''
             then Return (a, False, None)
             else Return (a, False, Some e)
         | Inr isDir \<Rightarrow>
             if isDir then
               (case Add (Name event) (fs_Add os) a of
                  Exit m \<Rightarrow> Exit m
                | Return (a', err) \<Rightarrow>
                    (case err of
                       Some e \<Rightarrow> Return (a', False, Some e)
                     | None \<Rightarrow> on_remove event os a' False))
             else on_remove event os a True)
      else on_remove event os a False)"

subsection \<open>The monitoring loop\<close>

text \<open>
  \<^verbatim>\<open>func (a *autotest) monitorChanges()\<close>. Every iteration of the loop is one
  \<^verbatim>\<open>select\<close> over the stop channel, the watcher's error and event channels and a timer
  that \<^verbatim>\<open>time.After(a.SettleTime)\<close> creates anew in that iteration.

  The model runs the loop against a list of inputs, in the order in which \<^verbatim>\<open>select\<close>
  takes them, each with the instant from which it is ready. \<open>t\<close> is the instant at which
  the loop enters \<^verbatim>\<open>select\<close>, so the timer of this iteration fires at
  \<open>t + SettleTime\<close>. The first input is taken when it is ready before that; when both
  are ready at the same instant Go chooses either, and \<open>pick\<close> says whether the timer
  wins. Handling an input takes no time. \<open>cmd\<close> gives, for the instant at which the test
  command is started, its result and how long it runs; the loop is blocked that long.

  The result is \<open>None\<close> when \<^verbatim>\<open>SettleTime\<close> is not positive (the timer is then ready at
  once in every iteration and the loop may never take an input). Otherwise it is the
  instants at which \<^verbatim>\<open>RunTests\<close> was called, the lines logged, how the run ended, and the
  watcher: \<open>Finished\<close> after a stop request, \<open>Exited\<close> when the process ended, and
  \<open>Waiting\<close> when no input is left and no modification is pending, where the loop goes
  on taking the timer case without effect. (Where an input is taken first the list of
  inputs is not empty, so the branch for the empty list there is never reached.)
\<close>

datatype input = StopRequest | SourceError string | Notification Event os_replies

datatype ending = Finished | Exited string | Waiting

record trace =
  triggers :: "Time list"
  logged :: "string list"

definition input_first :: "(Time \<Rightarrow> bool) \<Rightarrow> Time \<Rightarrow> Time \<Rightarrow> (Time \<times> input) list \<Rightarrow> bool" where
  "input_first pick t deadline ins =
     (case ins of
        [] \<Rightarrow> False
      | (ta, i) # rest \<Rightarrow> max ta t < deadline \<or> (max ta t = deadline \<and> \<not> pick deadline))"

function monitorChanges ::
  "(Time \<Rightarrow> bool) \<Rightarrow> (Time \<Rightarrow> string option \<times> nat) \<Rightarrow> Time \<Rightarrow> bool \<Rightarrow> autotest \<Rightarrow>
   (Time \<times> input) list \<Rightarrow> trace \<Rightarrow> (trace \<times> ending \<times> autotest) option" where
  "monitorChanges pick cmd t modified a ins tr =
     (if sint (SettleTime a) \<le> 0 then None
      else if ins = [] \<and> \<not> modified then Some (tr, Waiting, a)
      else if input_first pick t (t + sint (SettleTime a)) ins then
        (case ins of
           [] \<Rightarrow> None
         | (ta, i) # rest \<Rightarrow>
             (case i of
                StopRequest \<Rightarrow> Some (tr, Finished, a)
              | SourceError e \<Rightarrow>
                  monitorChanges pick cmd (max ta t) modified a rest
                    (tr\<lparr>logged := logged tr @ [''error: '' @ e]\<rparr>)
              | Notification event os \<Rightarrow>
                  (case handleEvent event os a of
                     Exit m \<Rightarrow> Some (tr, Exited m, a)
                   | Return (a', mod', err) \<Rightarrow>
                       (case err of
                          Some e \<Rightarrow>
                            monitorChanges pick cmd (max ta t) modified a' rest
                              (tr\<lparr>logged := logged tr @ [''error: '' @ e]\<rparr>)
                        | None \<Rightarrow>
                            monitorChanges pick cmd (max ta t) (if mod' then True else modified)
                              a' rest tr))))
      else if modified then
        (case cmd (t + sint (SettleTime a)) of
           (err, dur) \<Rightarrow>
             (case RunTests err (t + sint (SettleTime a) + int dur) a of
                Exit m \<Rightarrow>
                  Some (tr\<lparr>triggers := triggers tr @ [t + sint (SettleTime a)]\<rparr>, Exited m, a)
              | Return (a', lines) \<Rightarrow>
                  monitorChanges pick cmd (t + sint (SettleTime a) + int dur) False a' ins
                    (tr\<lparr>triggers := triggers tr @ [t + sint (SettleTime a)],
                        logged := logged tr @ lines\<rparr>)))
      else monitorChanges pick cmd (t + sint (SettleTime a)) modified a ins tr)"
  by pat_completeness auto
termination
proof (relation "measures
    [\<lambda>(pick, cmd, t, modified, a, ins, tr). length ins,
     \<lambda>(pick, cmd, t, modified, a, ins, tr).
        (case ins of [] \<Rightarrow> (if modified then 1 else 0) | (ta, i) # rest \<Rightarrow> nat (ta - t))]",
    goal_cases)
  case 1
  then show ?case by simp
next
  case 2
  then show ?case by simp
next
  case 3
  then show ?case by simp
next
  case 4
  then show ?case by simp
next
  case 5
  then show ?case by (auto simp: input_first_def split: list.splits)
next
  case 6
  then show ?case by (auto simp: input_first_def split: list.splits)
qed

declare monitorChanges.simps [simp del]

subsection \<open>The watcher at start\<close>

text \<open>
  The pattern \<^verbatim>\<open>\..*\.swp$\<close> of \<^verbatim>\<open>newWatcher\<close>: the text ends with \<^verbatim>\<open>.swp\<close>, and
  before that ending there is a dot with no line break after it.
\<close>

definition swp_pattern :: "string \<Rightarrow> bool" where
  "swp_pattern s \<longleftrightarrow>
     HasSuffix s ''.swp'' \<and>
     CHR ''.'' \<in> set (takeWhile (\<lambda>c. c \<noteq> CHR 0x0A) (rev (take (length s - 4) s)))"

text \<open>
  \<^verbatim>\<open>func newWatcher\<close>, for a watcher that fsnotify could create.
  The zero \<^verbatim>\<open>time.Time\<close> is the origin of the instants.
\<close>

definition newWatcher :: autotest where
  "newWatcher =
     \<lparr>SettleTime = 2 * Second, IgnoreFiles = [swp_pattern], debug = False, paths = [],
      timeSuccess = 0, timeFailure = 0, lastState = starting\<rparr>"

subsection \<open>Bursts of inputs\<close>

text \<open>
  Inputs of the monitoring loop as the properties below name them. A written event has
  the write bit, neither the create nor the remove bit, and a base name that no pattern of
  \<^verbatim>\<open>IgnoreFiles\<close> matches. A quiet input is an error of the watcher, or an event without
  the remove bit, whose write bit (if set) goes with an ignored base name and whose create
  bit (if set) goes with a directory that the watcher registers.
\<close>

definition written_event :: "autotest \<Rightarrow> input \<Rightarrow> bool" where
  "written_event a i =
     (case i of
        Notification event os \<Rightarrow>
          Op event AND fsnotify_Write \<noteq> 0 \<and> Op event AND fsnotify_Create = 0 \<and>
          Op event AND fsnotify_Remove = 0 \<and> \<not> skip_file a (Name event)
      | _ \<Rightarrow> False)"

definition quiet_input :: "autotest \<Rightarrow> input \<Rightarrow> bool" where
  "quiet_input a i =
     (case i of
        StopRequest \<Rightarrow> False
      | SourceError e \<Rightarrow> True
      | Notification event os \<Rightarrow>
          Op event AND fsnotify_Remove = 0 \<and>
          (Op event AND fsnotify_Write = 0 \<or> skip_file a (Name event)) \<and>
          (Op event AND fsnotify_Create = 0 \<or> (stat os = Inr True \<and> fs_Add os = None)))"

text \<open>
  \<open>within_settle st prev ins\<close>: every input of \<open>ins\<close> is ready strictly less than
  \<open>st\<close> after the one before it, the first one after the instant \<open>prev\<close>.
\<close>

fun within_settle :: "int \<Rightarrow> Time \<Rightarrow> (Time \<times> input) list \<Rightarrow> bool" where
  "within_settle st prev [] = True"
| "within_settle st prev ((ta, i) # rest) = (prev \<le> ta \<and> ta < prev + st \<and> within_settle st ta rest)"

definition last_instant :: "Time \<Rightarrow> (Time \<times> input) list \<Rightarrow> Time" where
  "last_instant prev ins = (if ins = [] then prev else fst (last ins))"

definition no_trace :: trace where
  "no_trace = \<lparr>triggers = [], logged = []\<rparr>"

text \<open>
  The answers of the watcher's \<^verbatim>\<open>Remove\<close> after which \<^verbatim>\<open>handleEvent\<close> goes on: no
  error, or an error whose text starts with the words the source quotes.
\<close>

definition tolerated_remove :: "string option \<Rightarrow> bool" where
  "tolerated_remove err =
     (case err of
        None \<Rightarrow> True
      | Some e \<Rightarrow> HasPrefix e ''can't remove non-existent inotify watch'')"

section \<open>Properties\<close>

subsection \<open>Rounding and printing the elapsed time\<close>

lemma sint_word_of_int_64:
  "- (2 ^ 63) \<le> k \<Longrightarrow> k < 2 ^ 63 \<Longrightarrow> sint (word_of_int k :: 64 word) = k"
  by (simp add: sint_sbintrunc' signed_take_bit_int_eq_self)

lemma quo64_Second_2: "quo64 Second 2 = 500000000"
  by (simp add: quo64_def Second_def signed_divide_int_def)

lemma round_d_Second_eq:
  assumes "0 \<le> sint d" and "sint d \<le> 2 ^ 63 - 1 - 500000000"
  shows "round_d d Second =
           Some (word_of_int ((sint d + 500000000) div 1000000000 * 1000000000))"
proof -
  let ?k = "sint d + 500000000"
  have d: "d = word_of_int (sint d)"
    by simp
  have "d + 500000000 = word_of_int (sint d) + word_of_int 500000000"
    by simp
  then have t: "d + 500000000 = word_of_int ?k"
    by (simp only: wi_hom_add)
  have st: "sint (d + 500000000) = ?k"
    unfolding t using assms by (intro sint_word_of_int_64) simp_all
  have sS: "sint Second = 1000000000"
    by (simp add: Second_def)
  have "?k smod 1000000000 = ?k mod 1000000000"
    using assms by (simp add: signed_modulo_int_def)
  then have r: "rem64 (d + 500000000) Second = word_of_int (?k mod 1000000000)"
    by (simp add: rem64_def st sS)
  have "d + 500000000 - rem64 (d + 500000000) Second
          = word_of_int ?k - word_of_int (?k mod 1000000000)"
    by (subst r, subst t, rule refl)
  then have "d + 500000000 - rem64 (d + 500000000) Second = word_of_int (?k - ?k mod 1000000000)"
    by (simp only: wi_hom_sub)
  moreover have "?k - ?k mod 1000000000 = ?k div 1000000000 * 1000000000"
    by (simp add: minus_mod_eq_div_mult)
  moreover have "Second \<noteq> 0"
    by (simp add: Second_def)
  ultimately show ?thesis
    by (simp add: round_d_def quo64_Second_2)
qed

lemma round_d_Second_nearest:
  assumes "0 \<le> sint d" and "sint d \<le> 2 ^ 63 - 1 - 500000000"
  shows "\<exists>r. round_d d Second = Some r \<and> sint r mod 1000000000 = 0
         \<and> sint r - 500000000 \<le> sint d \<and> sint d < sint r + 500000000"
proof -
  let ?k = "sint d + 500000000"
  let ?m = "?k div 1000000000 * 1000000000"
  have m: "?m = ?k - ?k mod 1000000000"
    by (simp add: minus_mod_eq_div_mult)
  have "0 \<le> ?k mod 1000000000" and "?k mod 1000000000 < 1000000000"
    by simp_all
  moreover have "?k mod 1000000000 \<le> ?k"
    using assms by (intro zmod_le_nonneg_dividend) simp
  ultimately have le: "?m \<le> ?k" and gt: "?k < ?m + 1000000000" and ge0: "0 \<le> ?m"
    unfolding m by linarith+
  have dv: "?m mod 1000000000 = 0"
    by simp
  have "sint (word_of_int ?m :: 64 word) = ?m"
    using assms le ge0 by (intro sint_word_of_int_64) simp_all
  then show ?thesis
    using round_d_Second_eq [OF assms] le gt dv by simp
qed

lemmas round_defs = round_d_def quo64_def rem64_def Second_def
  signed_divide_int_def signed_modulo_int_def

lemmas Duration_String_defs = Duration_String_def format_from_second_def
  format_below_second_def fmtFrac_def fmtInt_def fmtFrac_loop.simps fmtInt_loop.simps digit_def
  Second_def Microsecond_def Millisecond_def word_sless_alt

text \<open>
  C9: \<^verbatim>\<open>round(d, time.Second)\<close> is the whole number of seconds nearest to an elapsed time
  \<open>d\<close>, a half rounded up: the result \<open>r\<close> is a multiple of one second with
  \<open>r - 0.5s \<le> d < r + 0.5s\<close>, for every duration from zero up to the largest to which
  half a second can be added in an \<^verbatim>\<open>int64\<close>; and 4.6s, 4.4s and 4.5s round to 5s, 4s and 5s.
\<close>

theorem round_nearest_second_half_up:
  assumes "0 \<le> sint d" and "sint d \<le> 2 ^ 63 - 1 - 500000000"
  shows "(\<exists>r. round_d d Second = Some r \<and> sint r mod 1000000000 = 0
            \<and> sint r - 500000000 \<le> sint d \<and> sint d < sint r + 500000000)
       \<and> round_d 4600000000 Second = Some 5000000000
       \<and> round_d 4400000000 Second = Some 4000000000
       \<and> round_d 4500000000 Second = Some 5000000000"
proof -
  have "round_d 4600000000 Second = Some 5000000000"
    by (simp add: round_defs)
  moreover have "round_d 4400000000 Second = Some 4000000000"
    by (simp add: round_defs)
  moreover have "round_d 4500000000 Second = Some 5000000000"
    by (simp add: round_defs)
  ultimately show ?thesis
    using round_d_Second_nearest [OF assms] by blast
qed

text \<open>The same at 7.5s, which lies between 7.5s and 8.5s around the result 8s.\<close>

theorem round_nearest_second_half_up_witness:
  "0 \<le> sint (7500000000 :: Duration) \<and> sint (7500000000 :: Duration) \<le> 2 ^ 63 - 1 - 500000000 \<and>
   (\<exists>r. round_d 7500000000 Second = Some r \<and> sint r mod 1000000000 = 0
      \<and> sint r - 500000000 \<le> 7500000000 \<and> 7500000000 < sint r + 500000000)"
  using round_nearest_second_half_up [of 7500000000] by simp

text \<open>
  C8, as the code has it: with the status \<^verbatim>\<open>failing\<close> since the instant 0 and a
  successful run recorded at 125s, \<^verbatim>\<open>RunTests\<close> logs, in green,
  \<^verbatim>\<open>success after 2m5s failures\<close>: the rounded elapsed time of 125s is printed by the
  \<^verbatim>\<open>String\<close> method of \<^verbatim>\<open>time.Duration\<close>, in minutes and seconds.
\<close>

theorem RunTests_success_after_failures:
  assumes "lastState a = failing" and "timeFailure a = 0"
  shows "RunTests None 125000000000 a =
           Return (a\<lparr>timeSuccess := 125000000000, lastState := working\<rparr>,
                   [green ''success after 2m5s failures''])"
  using assms
  by (simp add: RunTests_def Since_def Sub_def maxDuration_def minDuration_def round_defs
      Duration_String_defs)

theorem RunTests_success_after_failures_witness:
  "RunTests None 125000000000 (newWatcher\<lparr>paths := [''/w''], lastState := failing\<rparr>) =
     Return (newWatcher\<lparr>paths := [''/w''], timeSuccess := 125000000000, lastState := working\<rparr>,
             [green ''success after 2m5s failures''])"
  using RunTests_success_after_failures [of "newWatcher\<lparr>paths := [''/w''], lastState := failing\<rparr>"]
  by (simp add: newWatcher_def)

text \<open>
  C8 as the claim states it fails: the line logged at that input is not
  \<^verbatim>\<open>success after 125s failures\<close>.
\<close>

theorem RunTests_125s_counterexample:
  "RunTests None 125000000000 (newWatcher\<lparr>lastState := failing\<rparr>) =
     Return (newWatcher\<lparr>timeSuccess := 125000000000, lastState := working\<rparr>,
             [green ''success after 2m5s failures'']) \<and>
   green ''success after 2m5s failures'' \<noteq> green ''success after 125s failures''"
  by (simp add: RunTests_def Since_def Sub_def maxDuration_def minDuration_def round_defs
      Duration_String_defs newWatcher_def green_def)

subsection \<open>The watch list\<close>

lemma delete_entry_remove1: "delete_entry path xs = remove1 path xs"
  by (induction xs) auto

lemma delete_entry_split:
  "path \<notin> set xs \<Longrightarrow> delete_entry path (xs @ path # ys) = xs @ ys"
  by (induction xs) auto

lemma count_list_delete_entry:
  "count_list (delete_entry path xs) path = count_list xs path - 1"
  by (induction xs) auto

lemma length_delete_entry: "length xs \<le> Suc (length (delete_entry path xs))"
  by (induction xs) auto

lemma remove1_absent_if_single:
  "count_list xs x \<le> 1 \<Longrightarrow> x \<notin> set (remove1 x xs)"
  by (induction xs) (auto simp: count_list_0_iff)

lemmas op_defs = fsnotify_Create_def fsnotify_Write_def fsnotify_Remove_def

text \<open>
  C3, as the code has it: when the watcher registers the path, \<^verbatim>\<open>Add\<close> appends it to
  the tracked list whether or not the list holds it already, so every further \<^verbatim>\<open>Add\<close> of
  a path adds one more entry for it.
\<close>

theorem Add_appends:
  "Add path None a = Return (a\<lparr>paths := paths a @ [path]\<rparr>, None) \<and>
   count_list (paths a @ [path]) path = Suc (count_list (paths a) path)"
  by (simp add: Add_def)

text \<open>
  C3 as the claim states it fails: after two calls of \<^verbatim>\<open>Add\<close> for one path the list
  holds the path twice, and differs from the list after one call.
\<close>

theorem Add_twice_counterexample:
  "Add ''/w'' None newWatcher = Return (newWatcher\<lparr>paths := [''/w'']\<rparr>, None) \<and>
   Add ''/w'' None (newWatcher\<lparr>paths := [''/w'']\<rparr>)
     = Return (newWatcher\<lparr>paths := [''/w'', ''/w'']\<rparr>, None) \<and>
   paths (newWatcher\<lparr>paths := [''/w'', ''/w'']\<rparr>) \<noteq> paths (newWatcher\<lparr>paths := [''/w'']\<rparr>) \<and>
   \<not> distinct (paths (newWatcher\<lparr>paths := [''/w'', ''/w'']\<rparr>))"
  by (simp add: Add_def newWatcher_def)

text \<open>
  C4, as the code has it: when the watcher fails to register the path, for whatever
  reason, \<^verbatim>\<open>Add\<close> does not return to its caller: \<^verbatim>\<open>log.Fatal\<close> prints the error and ends
  the process, so \<^verbatim>\<open>handleEvent\<close> on a created directory ends there and the monitoring loop
  that took the event ends with it.
\<close>

theorem Add_failure_exits:
  assumes "Op event AND fsnotify_Create \<noteq> 0" and "stat os = Inr True" and "fs_Add os = Some e"
  shows "Add (Name event) (fs_Add os) a = Exit e \<and> handleEvent event os a = Exit e \<and>
         (0 < sint (SettleTime a) \<and>
          input_first pick t (t + sint (SettleTime a)) ((ta, Notification event os) # rest) \<longrightarrow>
          monitorChanges pick cmd t modified a ((ta, Notification event os) # rest) tr
            = Some (tr, Exited e, a))"
  using assms by (simp add: Add_def handleEvent_def monitorChanges.simps)

theorem Add_failure_exits_witness:
  "monitorChanges (\<lambda>d. True) (\<lambda>d. (None, 0)) 0 True (newWatcher\<lparr>paths := [''/w'']\<rparr>)
     [(500, Notification \<lparr>Name = ''/w/sub'', Op = fsnotify_Create\<rparr>
         \<lparr>stat = Inr True, fs_Add = Some ''too many open files'', fs_Remove = None\<rparr>),
      (600, StopRequest)] no_trace
     = Some (no_trace, Exited ''too many open files'', newWatcher\<lparr>paths := [''/w'']\<rparr>)"
  using Add_failure_exits [of "\<lparr>Name = ''/w/sub'', Op = fsnotify_Create\<rparr>"
      "\<lparr>stat = Inr True, fs_Add = Some ''too many open files'', fs_Remove = None\<rparr>"
      "''too many open files''" "newWatcher\<lparr>paths := [''/w'']\<rparr>" "\<lambda>d. True" 0 500
      "[(600, StopRequest)]" "\<lambda>d. (None, 0)" True no_trace]
  by (simp add: op_defs input_first_def newWatcher_def Second_def)

text \<open>
  C4 as the claim states it fails: on a registration error \<^verbatim>\<open>Add\<close> returns nothing, the
  process ends, and so does a monitoring loop that handles the created directory.
\<close>

theorem Add_failure_counterexample:
  "Add ''/w/d'' (Some ''inotify_add_watch /w/d: no space left on device'') newWatcher
     = Exit ''inotify_add_watch /w/d: no space left on device'' \<and>
   monitorChanges (\<lambda>d. False) (\<lambda>d. (None, 0)) 0 False newWatcher
     [(1000, Notification \<lparr>Name = ''/w/d'', Op = fsnotify_Create\<rparr>
         \<lparr>stat = Inr True, fs_Add = Some ''inotify_add_watch /w/d: no space left on device'',
          fs_Remove = None\<rparr>)] no_trace
     = Some (no_trace, Exited ''inotify_add_watch /w/d: no space left on device'', newWatcher)"
  by (simp add: Add_def handleEvent_def monitorChanges.simps input_first_def op_defs
      newWatcher_def Second_def)

text \<open>
  C10: \<^verbatim>\<open>Remove\<close> deletes the first entry equal to the path and no other: the list
  loses at most one entry, the number of entries equal to the path goes down by one (or
  stays zero), and an entry for the path behind the first one stays in the list. The
  watcher's answer is returned as it is.
\<close>

theorem Remove_first_occurrence:
  "paths (fst (Remove path err a)) = remove1 path (paths a) \<and>
   snd (Remove path err a) = err \<and>
   length (paths a) \<le> Suc (length (paths (fst (Remove path err a)))) \<and>
   count_list (paths (fst (Remove path err a))) path = count_list (paths a) path - 1 \<and>
   (\<forall>xs ys. path \<notin> set xs \<and> paths a = xs @ path # ys \<longrightarrow>
       paths (fst (Remove path err a)) = xs @ ys)"
  by (simp add: Remove_def delete_entry_remove1 [symmetric] length_delete_entry
      count_list_delete_entry delete_entry_split)

theorem Remove_first_occurrence_witness:
  "paths (fst (Remove ''/w/a'' None (newWatcher\<lparr>paths := [''/w'', ''/w/a'', ''/w/b'', ''/w/a'']\<rparr>)))
     = [''/w'', ''/w/b'', ''/w/a'']"
  using Remove_first_occurrence
    [of "''/w/a''" None "newWatcher\<lparr>paths := [''/w'', ''/w/a'', ''/w/b'', ''/w/a'']\<rparr>"]
  by (simp add: newWatcher_def)

subsection \<open>Classifying one notification\<close>

text \<open>
  C5, as the code has it: \<^verbatim>\<open>handleEvent\<close> looks at the kind bits in the order created,
  removed, written, and ends at the first error. A created bit whose \<^verbatim>\<open>os.Stat\<close> fails
  ends the handling at once, with no error when the path no longer exists and with the
  error otherwise, and the removed and written bits are not looked at. A created
  directory that the watcher fails to register ends the process (\<^verbatim>\<open>log.Fatal\<close> in
  \<^verbatim>\<open>Add\<close>), and nothing is returned. An error of the watcher's \<^verbatim>\<open>Remove\<close> that is not
  tolerated is returned with the flag \<^verbatim>\<open>false\<close>. In every other case, also after the
  tolerated error of \<^verbatim>\<open>Remove\<close>, each bit present is evaluated and the flag is the
  disjunction of the flags of the bits, with no error. The four cases cover every event
  and every answer of the operating system and the watcher.
\<close>

theorem handleEvent_kind_bits:
  "(\<forall>e. Op event AND fsnotify_Create \<noteq> 0 \<and> stat os = Inl e \<longrightarrow>
      handleEvent event os a =
        Return (a, False, if HasSuffix e ''no such file or directory'' then None else Some e))
   \<and> (\<forall>e. Op event AND fsnotify_Create \<noteq> 0 \<and> stat os = Inr True \<and> fs_Add os = Some e \<longrightarrow>
      handleEvent event os a = Exit e)
   \<and> (\<not> (Op event AND fsnotify_Create \<noteq> 0 \<and> isl (stat os)) \<and>
      \<not> (Op event AND fsnotify_Create \<noteq> 0 \<and> stat os = Inr True \<and> fs_Add os \<noteq> None) \<and>
      Op event AND fsnotify_Remove \<noteq> 0 \<and> \<not> tolerated_remove (fs_Remove os) \<longrightarrow>
        (\<exists>a'. handleEvent event os a = Return (a', False, fs_Remove os)))
   \<and> (\<not> (Op event AND fsnotify_Create \<noteq> 0 \<and> isl (stat os)) \<and>
      \<not> (Op event AND fsnotify_Create \<noteq> 0 \<and> stat os = Inr True \<and> fs_Add os \<noteq> None) \<and>
      (Op event AND fsnotify_Remove \<noteq> 0 \<longrightarrow> tolerated_remove (fs_Remove os)) \<longrightarrow>
        (\<exists>a'. handleEvent event os a =
           Return (a',
             (Op event AND fsnotify_Create \<noteq> 0 \<and> stat os = Inr False) \<or>
             Op event AND fsnotify_Remove \<noteq> 0 \<or>
             (Op event AND fsnotify_Write \<noteq> 0 \<and> \<not> skip_file a (Name event)),
             None)))"
proof (cases "stat os")
  case (Inl e)
  then show ?thesis
    by (auto simp: handleEvent_def on_remove_def on_write_def Remove_def tolerated_remove_def
        skip_file_def split: option.splits)
next
  case (Inr isDir)
  show ?thesis
  proof (cases "Op event AND fsnotify_Create \<noteq> 0 \<and> isDir")
    case True
    with Inr show ?thesis
      by (cases "fs_Add os")
         (auto simp: handleEvent_def on_remove_def on_write_def Remove_def Add_def
          tolerated_remove_def skip_file_def split: option.splits)
  next
    case False
    with Inr show ?thesis
      by (auto simp: handleEvent_def on_remove_def on_write_def Remove_def
          tolerated_remove_def skip_file_def split: option.splits)
  qed
qed

text \<open>
  One event for each of the four cases: a stat error that is not the tolerated one, a
  directory that the watcher does not register, a removal with the tolerated error
  together with an ignored write, and a removal with another error of the watcher.
\<close>

theorem handleEvent_kind_bits_witness:
  "handleEvent \<lparr>Name = ''/w/main.go'', Op = fsnotify_Create OR fsnotify_Write\<rparr>
     \<lparr>stat = Inl ''stat /w/main.go: permission denied'', fs_Add = None, fs_Remove = None\<rparr>
     newWatcher
     = Return (newWatcher, False, Some ''stat /w/main.go: permission denied'')
   \<and> handleEvent \<lparr>Name = ''/w/pkg'', Op = fsnotify_Create OR fsnotify_Remove OR fsnotify_Write\<rparr>
        \<lparr>stat = Inr True, fs_Add = Some ''inotify_add_watch /w/pkg: permission denied'',
         fs_Remove = None\<rparr>
        newWatcher
        = Exit ''inotify_add_watch /w/pkg: permission denied''
   \<and> (\<exists>a'. handleEvent \<lparr>Name = ''/w/.main.go.swp'', Op = fsnotify_Remove OR fsnotify_Write\<rparr>
        \<lparr>stat = Inr False, fs_Add = None,
         fs_Remove = Some ''can't remove non-existent inotify watch for: /w/.main.go.swp''\<rparr>
        newWatcher
        = Return (a', True, None))
   \<and> (\<exists>a'. handleEvent \<lparr>Name = ''/w/sub'', Op = fsnotify_Create OR fsnotify_Remove\<rparr>
        \<lparr>stat = Inr True, fs_Add = None, fs_Remove = Some ''inotify_rm_watch: invalid argument''\<rparr>
        newWatcher
        = Return (a', False, Some ''inotify_rm_watch: invalid argument''))"
  using handleEvent_kind_bits [of "\<lparr>Name = ''/w/main.go'', Op = fsnotify_Create OR fsnotify_Write\<rparr>"
      "\<lparr>stat = Inl ''stat /w/main.go: permission denied'', fs_Add = None, fs_Remove = None\<rparr>"
      newWatcher]
    handleEvent_kind_bits
      [of "\<lparr>Name = ''/w/pkg'', Op = fsnotify_Create OR fsnotify_Remove OR fsnotify_Write\<rparr>"
      "\<lparr>stat = Inr True, fs_Add = Some ''inotify_add_watch /w/pkg: permission denied'',
         fs_Remove = None\<rparr>"
      newWatcher]
    handleEvent_kind_bits [of "\<lparr>Name = ''/w/.main.go.swp'', Op = fsnotify_Remove OR fsnotify_Write\<rparr>"
      "\<lparr>stat = Inr False, fs_Add = None,
         fs_Remove = Some ''can't remove non-existent inotify watch for: /w/.main.go.swp''\<rparr>"
      newWatcher]
    handleEvent_kind_bits [of "\<lparr>Name = ''/w/sub'', Op = fsnotify_Create OR fsnotify_Remove\<rparr>"
      "\<lparr>stat = Inr True, fs_Add = None, fs_Remove = Some ''inotify_rm_watch: invalid argument''\<rparr>"
      newWatcher]
  by (simp add: op_defs tolerated_remove_def HasPrefix_def HasSuffix_def)

text \<open>
  C5 as the claim states it fails: at an event with the created and the removed bit
  whose path is gone when \<^verbatim>\<open>os.Stat\<close> looks, \<^verbatim>\<open>handleEvent\<close> returns in the created part,
  with no modification and no error; the removed part is not reached and the path stays
  in the tracked list. The same removal without the created bit deletes the path and
  reports a modification.
\<close>

theorem handleEvent_created_removed_gone:
  "handleEvent \<lparr>Name = ''/w/tmp'', Op = fsnotify_Create OR fsnotify_Remove\<rparr>
     \<lparr>stat = Inl ''stat /w/tmp: no such file or directory'', fs_Add = None, fs_Remove = None\<rparr>
     (newWatcher\<lparr>paths := [''/w'', ''/w/tmp'']\<rparr>)
   = Return (newWatcher\<lparr>paths := [''/w'', ''/w/tmp'']\<rparr>, False, None) \<and>
   handleEvent \<lparr>Name = ''/w/tmp'', Op = fsnotify_Remove\<rparr>
     \<lparr>stat = Inl ''stat /w/tmp: no such file or directory'', fs_Add = None, fs_Remove = None\<rparr>
     (newWatcher\<lparr>paths := [''/w'', ''/w/tmp'']\<rparr>)
   = Return (newWatcher\<lparr>paths := [''/w'']\<rparr>, True, None)"
  by (simp add: handleEvent_def on_remove_def on_write_def Remove_def op_defs HasSuffix_def
      newWatcher_def)

text \<open>
  C6, as the code has it: for every event with the removed bit and without the created
  bit, \<^verbatim>\<open>handleEvent\<close> deletes the first entry for the path from the tracked list, the
  other entries keeping their order; the path is absent afterwards when the list held it
  at most once, and a list without the path stays as it is. A modification is reported
  when the watcher's \<^verbatim>\<open>Remove\<close> succeeded or failed with the tolerated error; after any
  other error of the watcher that error is returned and no modification is reported.
\<close>

theorem handleEvent_removed:
  assumes "Op event AND fsnotify_Remove \<noteq> 0" and "Op event AND fsnotify_Create = 0"
  shows "\<exists>a'. handleEvent event os a =
              Return (a', tolerated_remove (fs_Remove os),
                      if tolerated_remove (fs_Remove os) then None else fs_Remove os)
           \<and> a' = a\<lparr>paths := remove1 (Name event) (paths a)\<rparr>
           \<and> (count_list (paths a) (Name event) \<le> 1 \<longrightarrow> Name event \<notin> set (paths a'))
           \<and> (Name event \<notin> set (paths a) \<longrightarrow> a' = a)"
  using assms
  by (auto simp: handleEvent_def on_remove_def on_write_def Remove_def delete_entry_remove1
      tolerated_remove_def remove1_absent_if_single remove1_idem split: option.splits)

theorem handleEvent_removed_witness:
  "handleEvent \<lparr>Name = ''/w/d'', Op = fsnotify_Remove\<rparr>
     \<lparr>stat = Inr False, fs_Add = None,
      fs_Remove = Some ''can't remove non-existent inotify watch for: /w/d''\<rparr>
     (newWatcher\<lparr>paths := [''/w'', ''/w/d'', ''/w/e'']\<rparr>)
   = Return (newWatcher\<lparr>paths := [''/w'', ''/w/e'']\<rparr>, True, None)"
  using handleEvent_removed [of "\<lparr>Name = ''/w/d'', Op = fsnotify_Remove\<rparr>"
      "\<lparr>stat = Inr False, fs_Add = None,
      fs_Remove = Some ''can't remove non-existent inotify watch for: /w/d''\<rparr>"
      "newWatcher\<lparr>paths := [''/w'', ''/w/d'', ''/w/e'']\<rparr>"]
  by (simp add: op_defs tolerated_remove_def HasPrefix_def newWatcher_def)

text \<open>
  C6 as the claim states it fails: a removal for which the watcher answers with another
  error reports no modification, and a removal of a path that the list holds twice leaves
  the path in the list.
\<close>

theorem handleEvent_removed_counterexample:
  "handleEvent \<lparr>Name = ''/w/d'', Op = fsnotify_Remove\<rparr>
     \<lparr>stat = Inr False, fs_Add = None, fs_Remove = Some ''inotify_rm_watch: invalid argument''\<rparr>
     (newWatcher\<lparr>paths := [''/w'', ''/w/d'']\<rparr>)
   = Return (newWatcher\<lparr>paths := [''/w'']\<rparr>, False, Some ''inotify_rm_watch: invalid argument'') \<and>
   handleEvent \<lparr>Name = ''/w/d'', Op = fsnotify_Remove\<rparr>
     \<lparr>stat = Inr False, fs_Add = None, fs_Remove = None\<rparr>
     (newWatcher\<lparr>paths := [''/w'', ''/w/d'', ''/w/d'']\<rparr>)
   = Return (newWatcher\<lparr>paths := [''/w'', ''/w/d'']\<rparr>, True, None) \<and>
   ''/w/d'' \<in> set (paths (newWatcher\<lparr>paths := [''/w'', ''/w/d'']\<rparr>))"
  by (simp add: handleEvent_def on_remove_def on_write_def Remove_def op_defs HasPrefix_def newWatcher_def)

text \<open>
  C7: for every event with the created bit (and neither the removed nor the write bit):
  when the path is a directory, which the watcher registers, the path is in the tracked
  list afterwards and no modification is reported; when the path is a file a modification
  is reported; when \<^verbatim>\<open>os.Stat\<close> fails because the path no longer exists, nothing changes
  and neither a modification nor an error is reported.
\<close>

theorem handleEvent_created:
  assumes "Op event AND fsnotify_Create \<noteq> 0"
    and "Op event AND fsnotify_Remove = 0" and "Op event AND fsnotify_Write = 0"
  shows "(stat os = Inr True \<and> fs_Add os = None \<longrightarrow>
           (\<exists>a'. handleEvent event os a = Return (a', False, None)
              \<and> a' = a\<lparr>paths := paths a @ [Name event]\<rparr> \<and> Name event \<in> set (paths a')))
       \<and> (stat os = Inr False \<longrightarrow> handleEvent event os a = Return (a, True, None))
       \<and> (\<forall>e. stat os = Inl e \<and> HasSuffix e ''no such file or directory'' \<longrightarrow>
           handleEvent event os a = Return (a, False, None))"
  using assms by (simp add: handleEvent_def on_remove_def on_write_def Add_def)

theorem handleEvent_created_witness:
  "handleEvent \<lparr>Name = ''/w/d'', Op = fsnotify_Create\<rparr>
     \<lparr>stat = Inr True, fs_Add = None, fs_Remove = None\<rparr> (newWatcher\<lparr>paths := [''/w'']\<rparr>)
     = Return (newWatcher\<lparr>paths := [''/w'', ''/w/d'']\<rparr>, False, None)
   \<and> handleEvent \<lparr>Name = ''/w/f.go'', Op = fsnotify_Create\<rparr>
     \<lparr>stat = Inr False, fs_Add = None, fs_Remove = None\<rparr> (newWatcher\<lparr>paths := [''/w'']\<rparr>)
     = Return (newWatcher\<lparr>paths := [''/w'']\<rparr>, True, None)
   \<and> handleEvent \<lparr>Name = ''/w/4913'', Op = fsnotify_Create\<rparr>
     \<lparr>stat = Inl ''stat /w/4913: no such file or directory'', fs_Add = None, fs_Remove = None\<rparr>
     (newWatcher\<lparr>paths := [''/w'']\<rparr>)
     = Return (newWatcher\<lparr>paths := [''/w'']\<rparr>, False, None)"
  using handleEvent_created [of "\<lparr>Name = ''/w/d'', Op = fsnotify_Create\<rparr>"
      "\<lparr>stat = Inr True, fs_Add = None, fs_Remove = None\<rparr>" "newWatcher\<lparr>paths := [''/w'']\<rparr>"]
    handleEvent_created [of "\<lparr>Name = ''/w/f.go'', Op = fsnotify_Create\<rparr>"
      "\<lparr>stat = Inr False, fs_Add = None, fs_Remove = None\<rparr>" "newWatcher\<lparr>paths := [''/w'']\<rparr>"]
    handleEvent_created [of "\<lparr>Name = ''/w/4913'', Op = fsnotify_Create\<rparr>"
      "\<lparr>stat = Inl ''stat /w/4913: no such file or directory'', fs_Add = None, fs_Remove = None\<rparr>"
      "newWatcher\<lparr>paths := [''/w'']\<rparr>"]
  by (simp add: op_defs HasSuffix_def newWatcher_def)

subsection \<open>The monitoring loop\<close>

lemma Second_nonzero: "Second \<noteq> 0"
  by (simp add: Second_def)

lemma RunTests_returns:
  "\<exists>a' lines. RunTests err now a = Return (a', lines)
     \<and> SettleTime a' = SettleTime a \<and> IgnoreFiles a' = IgnoreFiles a"
  by (cases err) (simp_all add: RunTests_def round_d_def Second_nonzero Let_def)

lemma written_event_cong:
  "IgnoreFiles a' = IgnoreFiles a \<Longrightarrow> written_event a' i = written_event a i"
  by (simp add: written_event_def skip_file_def split: input.splits)

lemma quiet_input_cong:
  "IgnoreFiles a' = IgnoreFiles a \<Longrightarrow> quiet_input a' i = quiet_input a i"
  by (simp add: quiet_input_def skip_file_def split: input.splits)

lemma handleEvent_written:
  "written_event a (Notification event os) \<Longrightarrow> handleEvent event os a = Return (a, True, None)"
  by (simp add: written_event_def handleEvent_def on_remove_def on_write_def)

lemma handleEvent_quiet:
  "quiet_input a (Notification event os) \<Longrightarrow>
     \<exists>a'. handleEvent event os a = Return (a', False, None)
       \<and> SettleTime a' = SettleTime a \<and> IgnoreFiles a' = IgnoreFiles a"
  by (auto simp: quiet_input_def handleEvent_def on_remove_def on_write_def Add_def skip_file_def)

lemma monitor_nothing_left:
  "0 < sint (SettleTime a) \<Longrightarrow> monitorChanges pick cmd t False a [] tr = Some (tr, Waiting, a)"
  by (simp add: monitorChanges.simps)

lemma monitor_final_trigger:
  assumes "0 < sint (SettleTime a)"
  shows "\<exists>tr' a'. monitorChanges pick cmd t True a [] tr = Some (tr', Waiting, a')
           \<and> triggers tr' = triggers tr @ [t + sint (SettleTime a)]"
proof -
  obtain err dur where c: "cmd (t + sint (SettleTime a)) = (err, dur)"
    by (cases "cmd (t + sint (SettleTime a))")
  obtain a' lines where r: "RunTests err (t + sint (SettleTime a) + int dur) a = Return (a', lines)"
    and s: "SettleTime a' = SettleTime a"
    using RunTests_returns by blast
  have "monitorChanges pick cmd t True a [] tr =
          monitorChanges pick cmd (t + sint (SettleTime a) + int dur) False a' []
            (tr\<lparr>triggers := triggers tr @ [t + sint (SettleTime a)], logged := logged tr @ lines\<rparr>)"
    using assms by (subst monitorChanges.simps) (simp add: input_first_def c r)
  also have "\<dots> = Some (tr\<lparr>triggers := triggers tr @ [t + sint (SettleTime a)],
                          logged := logged tr @ lines\<rparr>, Waiting, a')"
    using assms s by (simp add: monitor_nothing_left)
  finally show ?thesis by simp
qed

lemma monitor_take_input:
  assumes "0 < sint (SettleTime a)" and "t \<le> ta" and "ta < t + sint (SettleTime a)"
  shows "monitorChanges pick cmd t modified a ((ta, i) # rest) tr =
     (case i of
        StopRequest \<Rightarrow> Some (tr, Finished, a)
      | SourceError e \<Rightarrow>
          monitorChanges pick cmd ta modified a rest (tr\<lparr>logged := logged tr @ [''error: '' @ e]\<rparr>)
      | Notification event os \<Rightarrow>
          (case handleEvent event os a of
             Exit m \<Rightarrow> Some (tr, Exited m, a)
           | Return (a', mod', err) \<Rightarrow>
               (case err of
                  Some e \<Rightarrow>
                    monitorChanges pick cmd ta modified a' rest
                      (tr\<lparr>logged := logged tr @ [''error: '' @ e]\<rparr>)
                | None \<Rightarrow> monitorChanges pick cmd ta (mod' \<or> modified) a' rest tr)))"
  using assms
  by (subst monitorChanges.simps)
     (auto simp: input_first_def max_def split: input.splits outcome.splits option.splits)

lemma last_instant_Cons: "last_instant t ((ta, i) # ins) = last_instant ta ins"
  by (simp add: last_instant_def)

lemma monitor_burst:
  assumes "0 < sint (SettleTime a)"
    and "\<forall>(ta, i) \<in> set ins. written_event a i \<or> quiet_input a i"
    and "within_settle (sint (SettleTime a)) t ins"
  shows "\<exists>tr' a'. monitorChanges pick cmd t True a ins tr = Some (tr', Waiting, a')
           \<and> triggers tr' = triggers tr @ [last_instant t ins + sint (SettleTime a)]"
  using assms
proof (induction ins arbitrary: t a tr)
  case Nil
  then show ?case
    using monitor_final_trigger [of a pick cmd t tr] by (simp add: last_instant_def)
next
  case (Cons x ins)
  obtain ta i where x: "x = (ta, i)"
    by (cases x)
  from Cons.prems x have t: "t \<le> ta" "ta < t + sint (SettleTime a)"
    and w: "within_settle (sint (SettleTime a)) ta ins"
    and i: "written_event a i \<or> quiet_input a i"
    and rest: "\<forall>(ta, i) \<in> set ins. written_event a i \<or> quiet_input a i"
    by auto
  note step = monitor_take_input [OF Cons.prems(1) t, of pick cmd True i ins tr]
  show ?case
  proof (cases i)
    case StopRequest
    with i show ?thesis
      by (simp add: written_event_def quiet_input_def)
  next
    case (SourceError e)
    from Cons.IH [OF Cons.prems(1) rest w, of "tr\<lparr>logged := logged tr @ [''error: '' @ e]\<rparr>"]
    show ?thesis
      unfolding x using step SourceError by (simp add: last_instant_Cons)
  next
    case (Notification event os)
    from i obtain a' mod' where h: "handleEvent event os a = Return (a', mod', None)"
      and s: "SettleTime a' = SettleTime a" and g: "IgnoreFiles a' = IgnoreFiles a"
      using handleEvent_written [of a event os] handleEvent_quiet [of a event os]
      unfolding Notification by blast
    have rest': "\<forall>(ta, i) \<in> set ins. written_event a' i \<or> quiet_input a' i"
      using rest by (simp add: written_event_cong [OF g] quiet_input_cong [OF g])
    from Cons.IH [of a' ta tr] Cons.prems(1) rest' w s
    show ?thesis
      unfolding x using step Notification h by (simp add: last_instant_Cons)
  qed
qed

lemma monitor_idle_until_write:
  assumes "0 < sint (SettleTime a)" and "written_event a i" and "t \<le> ta"
  shows "monitorChanges pick cmd t False a ((ta, i) # rest) tr
           = monitorChanges pick cmd ta True a rest tr"
  using assms(3)
proof (induction "nat (ta - t)" arbitrary: t rule: less_induct)
  case less
  obtain event os where i: "i = Notification event os"
    using assms(2) by (cases i) (simp_all add: written_event_def)
  have h: "handleEvent event os a = Return (a, True, None)"
    using assms(2) handleEvent_written unfolding i by blast
  show ?case
  proof (cases "input_first pick t (t + sint (SettleTime a)) ((ta, i) # rest)")
    case True
    then show ?thesis
      using assms(1) less.prems
      by (subst monitorChanges.simps) (simp add: i h max_def)
  next
    case False
    then have far: "t + sint (SettleTime a) \<le> ta"
      using less.prems by (auto simp: input_first_def max_def)
    have "monitorChanges pick cmd t False a ((ta, i) # rest) tr
            = monitorChanges pick cmd (t + sint (SettleTime a)) False a ((ta, i) # rest) tr"
      using assms(1) False by (subst monitorChanges.simps) simp
    also have "\<dots> = monitorChanges pick cmd ta True a rest tr"
      using assms(1) far by (intro less.hyps) simp_all
    finally show ?thesis .
  qed
qed

lemma monitor_quiet_never_arms:
  assumes "0 < sint (SettleTime a)" and "\<forall>(ta, i) \<in> set ins. quiet_input a i"
  shows "\<exists>tr' a'. monitorChanges pick cmd t False a ins tr = Some (tr', Waiting, a')
           \<and> triggers tr' = triggers tr"
  using assms
proof (induction ins arbitrary: t a tr)
  case Nil
  then show ?case by (simp add: monitor_nothing_left)
next
  case (Cons x ins)
  obtain ta i where x: "x = (ta, i)"
    by (cases x)
  have taken: "\<exists>tr' a'. monitorChanges pick cmd t False a ((ta, i) # ins) tr = Some (tr', Waiting, a')
           \<and> triggers tr' = triggers tr"
    if "input_first pick t (t + sint (SettleTime a)) ((ta, i) # ins)" for t
  proof (cases i)
    case StopRequest
    with Cons.prems x show ?thesis by (simp add: quiet_input_def)
  next
    case (SourceError e)
    from Cons.IH [of a "max ta t" "tr\<lparr>logged := logged tr @ [''error: '' @ e]\<rparr>"] Cons.prems
    show ?thesis
      using that SourceError by (subst monitorChanges.simps) (simp add: x)
  next
    case (Notification event os)
    from Cons.prems x obtain a' where h: "handleEvent event os a = Return (a', False, None)"
      and s: "SettleTime a' = SettleTime a" and g: "IgnoreFiles a' = IgnoreFiles a"
      using handleEvent_quiet [of a event os] unfolding Notification by auto
    have rest': "\<forall>(ta, i) \<in> set ins. quiet_input a' i"
      using Cons.prems by (simp add: quiet_input_cong [OF g])
    from Cons.IH [of a' "max ta t" tr] Cons.prems(1) rest' s
    show ?thesis
      using that Notification h Cons.prems(1) by (subst monitorChanges.simps) simp
  qed
  have "\<exists>tr' a'. monitorChanges pick cmd t False a ((ta, i) # ins) tr = Some (tr', Waiting, a')
           \<and> triggers tr' = triggers tr"
  proof (induction "nat (ta - t)" arbitrary: t rule: less_induct)
    case less
    show ?case
    proof (cases "input_first pick t (t + sint (SettleTime a)) ((ta, i) # ins)")
      case True
      then show ?thesis by (rule taken)
    next
      case False
      then have far: "t + sint (SettleTime a) \<le> ta"
        using Cons.prems(1) by (auto simp: input_first_def max_def split: if_splits)
      have "monitorChanges pick cmd t False a ((ta, i) # ins) tr
            = monitorChanges pick cmd (t + sint (SettleTime a)) False a ((ta, i) # ins) tr"
        using Cons.prems(1) False by (subst monitorChanges.simps) simp
      moreover have "nat (ta - (t + sint (SettleTime a))) < nat (ta - t)"
        using Cons.prems(1) far by simp
      ultimately show ?thesis
        using less.hyps by simp
    qed
  qed
  then show ?case by (simp add: x)
qed

text \<open>
  C1: for every burst of written events on base names that are not ignored, the first
  ready at or after the instant at which the loop starts to wait, each later one ready
  strictly less than \<^verbatim>\<open>SettleTime\<close> after the one before: the loop calls \<^verbatim>\<open>RunTests\<close>
  exactly once, \<^verbatim>\<open>SettleTime\<close> after the last event of the burst, and waits on.
\<close>

theorem written_burst_fires_once:
  assumes "0 < sint (SettleTime a)"
    and "ins \<noteq> []"
    and "\<forall>(ta, i) \<in> set ins. written_event a i"
    and "t \<le> fst (hd ins)"
    and "within_settle (sint (SettleTime a)) (fst (hd ins)) (tl ins)"
  shows "\<exists>tr a'. monitorChanges pick cmd t False a ins no_trace = Some (tr, Waiting, a')
           \<and> triggers tr = [fst (last ins) + sint (SettleTime a)]"
proof -
  obtain ta i rest where ins: "ins = (ta, i) # rest"
    using assms(2) by (cases ins) auto
  have w: "written_event a i" and ws: "\<forall>(ta, i) \<in> set rest. written_event a i \<or> quiet_input a i"
    using assms(3) by (auto simp: ins)
  have "monitorChanges pick cmd t False a ins no_trace
          = monitorChanges pick cmd ta True a rest no_trace"
    using assms(1,4) w unfolding ins by (simp add: monitor_idle_until_write)
  moreover have "last_instant ta rest = fst (last ins)"
    by (simp add: last_instant_def ins)
  moreover have "within_settle (sint (SettleTime a)) ta rest"
    using assms(5) by (simp add: ins)
  ultimately show ?thesis
    using monitor_burst [OF assms(1) ws, of ta pick cmd no_trace] by (simp add: no_trace_def)
qed

text \<open>
  Three writes at 5s, 5.5s and 6.9s with the settle time of 2s: one run, at 8.9s.
\<close>

theorem written_burst_fires_once_witness:
  "\<exists>tr a'. monitorChanges (\<lambda>d. True) (\<lambda>d. (None, 250000000)) 0 False newWatcher
      [(5000000000, Notification \<lparr>Name = ''/w/main.go'', Op = fsnotify_Write\<rparr>
          \<lparr>stat = Inr False, fs_Add = None, fs_Remove = None\<rparr>),
       (5500000000, Notification \<lparr>Name = ''/w/util.go'', Op = fsnotify_Write\<rparr>
          \<lparr>stat = Inr False, fs_Add = None, fs_Remove = None\<rparr>),
       (6900000000, Notification \<lparr>Name = ''/w/main.go'', Op = fsnotify_Write\<rparr>
          \<lparr>stat = Inr False, fs_Add = None, fs_Remove = None\<rparr>)] no_trace
      = Some (tr, Waiting, a') \<and> triggers tr = [8900000000]"
  using written_burst_fires_once [of newWatcher
      "[(5000000000, Notification \<lparr>Name = ''/w/main.go'', Op = fsnotify_Write\<rparr>
          \<lparr>stat = Inr False, fs_Add = None, fs_Remove = None\<rparr>),
       (5500000000, Notification \<lparr>Name = ''/w/util.go'', Op = fsnotify_Write\<rparr>
          \<lparr>stat = Inr False, fs_Add = None, fs_Remove = None\<rparr>),
       (6900000000, Notification \<lparr>Name = ''/w/main.go'', Op = fsnotify_Write\<rparr>
          \<lparr>stat = Inr False, fs_Add = None, fs_Remove = None\<rparr>)]"
      0 "\<lambda>d. True" "\<lambda>d. (None, 250000000)"]
  by (simp add: written_event_def skip_file_def Base_def IsPathSeparator_def swp_pattern_def
      HasSuffix_def op_defs newWatcher_def Second_def)

text \<open>
  C2, as the code has it: an input that is no modification never arms the trigger, but
  every one of them restarts the settle wait, since each iteration of the loop sets a new
  timer. With a modification pending and inputs that are no modifications, each ready
  strictly less than \<^verbatim>\<open>SettleTime\<close> after the one before, \<^verbatim>\<open>RunTests\<close> is called once,
  \<^verbatim>\<open>SettleTime\<close> after the last of these inputs (after the instant \<open>t\<close> at which the loop
  began to wait, when there is none); with no modification pending such inputs cause no
  call at all.
\<close>

theorem quiet_inputs_restart_settle_wait:
  assumes "0 < sint (SettleTime a)"
    and "\<forall>(ta, i) \<in> set ins. quiet_input a i"
    and "within_settle (sint (SettleTime a)) t ins"
  shows "(\<exists>tr' a'. monitorChanges pick cmd t True a ins tr = Some (tr', Waiting, a')
            \<and> triggers tr' = triggers tr @ [last_instant t ins + sint (SettleTime a)])
       \<and> (\<exists>tr' a'. monitorChanges pick cmd t False a ins tr = Some (tr', Waiting, a')
            \<and> triggers tr' = triggers tr)"
proof -
  have "\<forall>(ta, i) \<in> set ins. written_event a i \<or> quiet_input a i"
    using assms(2) by auto
  then show ?thesis
    using monitor_burst [OF assms(1) _ assms(3), of pick cmd tr]
      monitor_quiet_never_arms [OF assms(1,2), of pick cmd t tr]
    by simp
qed

text \<open>
  A modification taken at 1s, then an error of the watcher at 2s, an ignored write at
  3.5s and a new directory at 5s, with the settle time of 2s: one run, at 7s.
\<close>

theorem quiet_inputs_restart_settle_wait_witness:
  "\<exists>tr' a'. monitorChanges (\<lambda>d. False) (\<lambda>d. (Some ''exit status 1'', 0)) 1000000000 True newWatcher
      [(2000000000, SourceError ''queue overflow''),
       (3500000000, Notification \<lparr>Name = ''/w/.main.go.swp'', Op = fsnotify_Write\<rparr>
          \<lparr>stat = Inr False, fs_Add = None, fs_Remove = None\<rparr>),
       (5000000000, Notification \<lparr>Name = ''/w/sub'', Op = fsnotify_Create\<rparr>
          \<lparr>stat = Inr True, fs_Add = None, fs_Remove = None\<rparr>)] no_trace
      = Some (tr', Waiting, a') \<and> triggers tr' = [7000000000]"
  using quiet_inputs_restart_settle_wait [of newWatcher
      "[(2000000000, SourceError ''queue overflow''),
       (3500000000, Notification \<lparr>Name = ''/w/.main.go.swp'', Op = fsnotify_Write\<rparr>
          \<lparr>stat = Inr False, fs_Add = None, fs_Remove = None\<rparr>),
       (5000000000, Notification \<lparr>Name = ''/w/sub'', Op = fsnotify_Create\<rparr>
          \<lparr>stat = Inr True, fs_Add = None, fs_Remove = None\<rparr>)]"
      1000000000 "\<lambda>d. False" "\<lambda>d. (Some ''exit status 1'', 0)" no_trace]
  by (simp add: quiet_input_def skip_file_def Base_def IsPathSeparator_def swp_pattern_def
      HasSuffix_def op_defs newWatcher_def Second_def last_instant_def no_trace_def)

text \<open>
  C2 as the claim states it fails: a write at 0s is followed by an error of the watcher
  at 1s; the settle time is 2s; \<^verbatim>\<open>RunTests\<close> is called at 3s, not at 2s.
\<close>

theorem settle_timer_reset_counterexample:
  "monitorChanges (\<lambda>d. False) (\<lambda>d. (None, 0)) 0 False newWatcher
     [(0, Notification \<lparr>Name = ''/w/main.go'', Op = fsnotify_Write\<rparr>
         \<lparr>stat = Inr False, fs_Add = None, fs_Remove = None\<rparr>),
      (1000000000, SourceError ''queue overflow'')] no_trace
   = Some (\<lparr>triggers = [3000000000], logged = [''error: queue overflow'']\<rparr>, Waiting,
           newWatcher\<lparr>timeSuccess := 3000000000, lastState := working\<rparr>) \<and>
   0 + sint (SettleTime newWatcher) = 2000000000"
  by (simp add: monitorChanges.simps input_first_def handleEvent_def on_remove_def on_write_def
      skip_file_def Base_def IsPathSeparator_def swp_pattern_def HasSuffix_def op_defs
      RunTests_def newWatcher_def Second_def no_trace_def)

end
